theory Spec2Isabelle
  imports Complex_Main
begin

section \<open>Data model (src/types.ts)\<close>

text \<open>
  Identifiers are strings, and a string is a list of code units below 256. A calendar date
  \<^verbatim>\<open>'YYYY-MM-DD'\<close> is modelled by its day number (days since 1970-01-01), so that equality
  of well-formed ISO strings is equality of day numbers. Point values, orders and deltas
  are integers. Optional fields of the TypeScript types are \<open>option\<close> values.

  A \<^verbatim>\<open>Date\<close> is modelled by the local calendar day of its instant, which is all that
  \<^verbatim>\<open>getDay\<close>, \<^verbatim>\<open>addDays\<close> and \<^verbatim>\<open>format\<close> read. \<^verbatim>\<open>new Date('YYYY-MM-DD')\<close> is midnight UTC
  of that day: its local day is the same day in a zone at or east of UTC and the day
  before in a zone west of UTC. The zone is part of the environment.
\<close>

type_synonym ISODate = int
type_synonym Date = int

record Kid =
  kid_id :: string
  kid_name :: string
  kid_color :: "string option"
  kid_avatarUrl :: "string option"
  kid_avatarEmoji :: "string option"
  kid_points :: int

datatype Schedule = Daily | Weekly "int list" | Custom "ISODate list"

record Chore =
  chore_id :: string
  chore_title :: string
  chore_points :: int
  chore_schedule :: Schedule
  assignedKidIds :: "string list"
  streakByKid :: "(string \<rightharpoonup> int) option"
  chore_order :: "int option"

record Reward =
  reward_id :: string
  reward_title :: string
  reward_cost :: int

record Completion =
  c_id :: string
  c_choreId :: string
  c_kidId :: string
  c_date :: ISODate
  c_completed :: bool

datatype Period = Weekly_period | Monthly_period

record Payout =
  p_id :: string
  p_kidId :: string
  p_period :: Period
  p_startISO :: ISODate
  p_endISO :: ISODate
  p_points :: int
  p_dollars :: rat
  p_timestampISO :: string
  p_note :: "string option"

record Adjustment =
  a_id :: string
  a_kidId :: string
  a_delta :: int
  a_reason :: string
  a_timestampISO :: string

record StreakBonus =
  b_id :: string
  b_kidId :: string
  b_dateISO :: ISODate
  b_streakLength :: int
  b_points :: int

record Settings =
  dollarsPerPoint :: rat
  hideCompletedOnBoard :: bool

record State =
  kids :: "Kid list"
  chores :: "Chore list"
  rewards :: "Reward list"
  completions :: "Completion list"
  payouts :: "Payout list"
  adjustments :: "Adjustment list"
  streakBonuses :: "StreakBonus list"
  settings :: Settings
  version :: int

text \<open>
  A stored or imported state blob: older backups lack \<^verbatim>\<open>adjustments\<close>,
  \<^verbatim>\<open>streakBonuses\<close> and possibly \<^verbatim>\<open>version\<close>; the code back-fills them.
\<close>

record Backup =
  bk_kids :: "Kid list"
  bk_chores :: "Chore list"
  bk_rewards :: "Reward list"
  bk_completions :: "Completion list"
  bk_payouts :: "Payout list"
  bk_adjustments :: "Adjustment list option"
  bk_streakBonuses :: "StreakBonus list option"
  bk_settings :: Settings
  bk_version :: "int option"

text \<open>
  What \<^verbatim>\<open>JSON.parse\<close> hands to \<^verbatim>\<open>loadState\<close>: an object in which each top-level
  field of a state is present or absent (a parsed value that is not an object spreads no
  field of a state, which is the record with every field absent).
\<close>

record Parsed =
  pj_kids :: "Kid list option"
  pj_chores :: "Chore list option"
  pj_rewards :: "Reward list option"
  pj_completions :: "Completion list option"
  pj_payouts :: "Payout list option"
  pj_adjustments :: "Adjustment list option"
  pj_streakBonuses :: "StreakBonus list option"
  pj_settings :: "Settings option"
  pj_version :: "int option"

datatype error = TypeError | SyntaxError

datatype Zone = AtOrEastOfUTC | WestOfUTC

text \<open>
  The environment of one reducer step: the results of the first and of the second call of
  \<^verbatim>\<open>nanoid()\<close> and of \<^verbatim>\<open>new Date().toISOString()\<close>, the time zone, and the double
  arithmetic of a payout, \<^verbatim>\<open>+(points * dollarsPerPoint).toFixed(2)\<close>, as a function of the
  points and the rate (floating point is outside the model).
\<close>

record Env =
  nanoid1 :: string
  nanoid2 :: string
  now :: string
  zone :: Zone
  payoutDollars :: "int \<Rightarrow> rat \<Rightarrow> rat"

section \<open>Date utilities (src/utils.ts, date-fns)\<close>

definition newDate :: "Zone \<Rightarrow> ISODate \<Rightarrow> Date" where
  \<comment> \<open>the local day of midnight UTC of \<open>dateISO\<close>\<close>
  "newDate z dateISO = (case z of AtOrEastOfUTC \<Rightarrow> dateISO | WestOfUTC \<Rightarrow> dateISO - 1)"

definition toISO :: "Date \<Rightarrow> ISODate" where
  \<comment> \<open>\<^verbatim>\<open>format(d, 'yyyy-MM-dd')\<close> prints the local day\<close>
  "toISO d = d"

definition addDays :: "Date \<Rightarrow> int \<Rightarrow> Date" where
  "addDays d n = d + n"

definition getDay :: "Date \<Rightarrow> int" where
  \<comment> \<open>the local weekday; 0 is Sunday; day 0 (1970-01-01) is a Thursday\<close>
  "getDay d = (d + 4) mod 7"

definition isChoreDueOn :: "Zone \<Rightarrow> Chore \<Rightarrow> ISODate \<Rightarrow> bool" where
  "isChoreDueOn z chore dateISO =
     (let d = newDate z dateISO; dow = getDay d in
      case chore_schedule chore of
        Daily \<Rightarrow> True
      | Weekly daysOfWeek \<Rightarrow> dow \<in> set daysOfWeek
      | Custom dates \<Rightarrow> dateISO \<in> set dates)"

section \<open>Streak helpers (src/App.tsx)\<close>

definition choresDueForKidOnDate :: "Zone \<Rightarrow> State \<Rightarrow> string \<Rightarrow> ISODate \<Rightarrow> Chore list" where
  "choresDueForKidOnDate z state kidId dateISO =
     filter (\<lambda>ch. kidId \<in> set (assignedKidIds ch) \<and> isChoreDueOn z ch dateISO) (chores state)"

definition isFullDayDone :: "Zone \<Rightarrow> State \<Rightarrow> string \<Rightarrow> ISODate \<Rightarrow> bool" where
  "isFullDayDone z state kidId dateISO =
     (let due = choresDueForKidOnDate z state kidId dateISO in
      if length due = 0 then False
      else list_all (\<lambda>ch.
             list_ex (\<lambda>c. c_kidId c = kidId \<and> c_choreId c = chore_id ch \<and> c_date c = dateISO
                          \<and> c_completed c) (completions state)) due)"

text \<open>
  The \<^verbatim>\<open>while (true)\<close> loop of \<^verbatim>\<open>consecutiveFullDaysEndingOn\<close>, with its two variables
  \<^verbatim>\<open>n\<close> and \<^verbatim>\<open>d\<close>; \<open>None\<close> stands for a loop that never leaves.
\<close>

partial_function (option) consecutiveLoop ::
  "Zone \<Rightarrow> State \<Rightarrow> string \<Rightarrow> nat \<Rightarrow> Date \<Rightarrow> nat option" where
  "consecutiveLoop z state kidId n d =
     (let dISO = toISO d in
      if \<not> isFullDayDone z state kidId dISO then Some n
      else consecutiveLoop z state kidId (n + 1) (addDays d (- 1)))"

declare consecutiveLoop.simps [code]

definition consecutiveFullDaysEndingOn :: "Zone \<Rightarrow> State \<Rightarrow> string \<Rightarrow> ISODate \<Rightarrow> nat option" where
  "consecutiveFullDaysEndingOn z state kidId dateISO =
     consecutiveLoop z state kidId 0 (newDate z dateISO)"

section \<open>Actions and the reducer (src/App.tsx)\<close>

record NewChore =
  nc_title :: string
  nc_points :: int
  nc_schedule :: Schedule
  nc_assignedKidIds :: "string list"

datatype Action =
    ADD_KID string "string option" "string option"
  | ADJUST_POINTS_WITH_REASON string int string
  | UPDATE_SETTINGS "rat option" "bool option"
  | ADD_CHORE NewChore
  | DELETE_CHORE string
  | REORDER_CHORES "string list"
  | TOGGLE_COMPLETE string string ISODate
  | ADD_REWARD string int
  | REDEEM_REWARD string string
  | DELETE_REWARD string
  | PAYOUT string Period ISODate ISODate int
  | RESET_ALL
  | REPLACE_ALL Backup

text \<open>
  \<^verbatim>\<open>String.prototype.trim\<close>: the white space and line terminators among the code units
  below 256 are TAB, LF, VT, FF, CR, the space and the no-break space U+00A0.
\<close>

definition isSpace :: "char \<Rightarrow> bool" where
  "isSpace c = (c \<in> set [CHR '' '', CHR 0x09, CHR 0x0A, CHR 0x0B, CHR 0x0C, CHR 0x0D, CHR 0xA0])"

definition trim :: "string \<Rightarrow> string" where
  "trim s = rev (dropWhile isSpace (rev (dropWhile isSpace s)))"

definition pastelPool :: "string list" where
  "pastelPool = [''#c9e4ff'', ''#ffe0f2'', ''#e6ffea'', ''#fff3c9'', ''#e7e0ff'', ''#ffdacc'']"

text \<open>\<^verbatim>\<open>a || b\<close> on an optional string: the empty string and \<^verbatim>\<open>undefined\<close> are falsy.\<close>

definition truthy :: "string option \<Rightarrow> string option" where
  "truthy s = (case s of None \<Rightarrow> None | Some v \<Rightarrow> if v = [] then None else Some v)"

fun findIndex :: "('a \<Rightarrow> bool) \<Rightarrow> 'a list \<Rightarrow> nat option" where
  "findIndex P [] = None"
| "findIndex P (x # xs) = (if P x then Some 0 else map_option Suc (findIndex P xs))"

definition sameTriple :: "string \<Rightarrow> string \<Rightarrow> ISODate \<Rightarrow> Completion \<Rightarrow> bool" where
  "sameTriple kidId choreId dateISO c =
     (c_kidId c = kidId \<and> c_choreId c = choreId \<and> c_date c = dateISO)"

text \<open>Lines 101-112: the new \<^verbatim>\<open>completed\<close> flag and the new completions array.\<close>

definition toggleCompleted :: "State \<Rightarrow> string \<Rightarrow> string \<Rightarrow> ISODate \<Rightarrow> bool" where
  "toggleCompleted state kidId choreId dateISO =
     (case findIndex (sameTriple kidId choreId dateISO) (completions state) of
        Some idx \<Rightarrow> \<not> c_completed (completions state ! idx)
      | None \<Rightarrow> True)"

definition toggleCompletions :: "Env \<Rightarrow> State \<Rightarrow> string \<Rightarrow> string \<Rightarrow> ISODate \<Rightarrow> Completion list" where
  "toggleCompletions env state kidId choreId dateISO =
     (case findIndex (sameTriple kidId choreId dateISO) (completions state) of
        Some idx \<Rightarrow>
          (let existing = completions state ! idx; completed = \<not> c_completed existing in
           if \<not> completed then take idx (completions state) @ drop (Suc idx) (completions state)
           else (completions state)[idx := existing\<lparr>c_completed := completed\<rparr>])
      | None \<Rightarrow>
          completions state @
            [\<lparr>c_id = nanoid1 env, c_choreId = choreId, c_kidId = kidId, c_date = dateISO,
              c_completed = True\<rparr>])"

definition wasChecked :: "State \<Rightarrow> string \<Rightarrow> string \<Rightarrow> ISODate \<Rightarrow> bool" where
  "wasChecked state kidId choreId dateISO =
     (case findIndex (sameTriple kidId choreId dateISO) (completions state) of
        Some idx \<Rightarrow> c_completed (completions state ! idx)
      | None \<Rightarrow> False)"

text \<open>
  Lines 115-122: \<^verbatim>\<open>state.chores.find(...)!\<close> may be \<^verbatim>\<open>undefined\<close>; reading
  \<^verbatim>\<open>chore.points\<close> then throws a TypeError, which happens at the first kid whose id matches.
\<close>

fun togglePoints :: "Chore option \<Rightarrow> bool \<Rightarrow> bool \<Rightarrow> string \<Rightarrow> Kid list \<Rightarrow> error + Kid list" where
  "togglePoints chore was completed kidId [] = Inr []"
| "togglePoints chore was completed kidId (k # ks) =
     (if kid_id k \<noteq> kidId then map_sum (\<lambda>e. e) (\<lambda>r. k # r) (togglePoints chore was completed kidId ks)
      else if \<not> was \<and> completed then
        (case chore of
           None \<Rightarrow> Inl TypeError
         | Some ch \<Rightarrow> map_sum (\<lambda>e. e) (\<lambda>r. k\<lparr>kid_points := kid_points k + chore_points ch\<rparr> # r)
                        (togglePoints chore was completed kidId ks))
      else if was \<and> \<not> completed then
        (case chore of
           None \<Rightarrow> Inl TypeError
         | Some ch \<Rightarrow> map_sum (\<lambda>e. e) (\<lambda>r. k\<lparr>kid_points := max 0 (kid_points k - chore_points ch)\<rparr> # r)
                        (togglePoints chore was completed kidId ks))
      else map_sum (\<lambda>e. e) (\<lambda>r. k # r) (togglePoints chore was completed kidId ks))"

text \<open>Lines 125-133: the per-kid streak counter of the toggled chore.\<close>

definition toggleStreaks ::
  "Zone \<Rightarrow> State \<Rightarrow> bool \<Rightarrow> string \<Rightarrow> string \<Rightarrow> ISODate \<Rightarrow> Chore list" where
  "toggleStreaks z state completed kidId choreId dateISO =
     map (\<lambda>ch.
       if chore_id ch \<noteq> choreId then ch
       else
         (let sbk = (case streakByKid ch of None \<Rightarrow> Map.empty | Some m \<Rightarrow> m);
              yISO = toISO (addDays (newDate z dateISO) (- 1));
              didYesterday = list_ex (\<lambda>c. c_kidId c = kidId \<and> c_choreId c = choreId \<and> c_date c = yISO
                                           \<and> c_completed c) (completions state)
          in ch\<lparr>streakByKid := Some (
               if completed then
                 sbk(kidId \<mapsto> (if didYesterday then (case sbk kidId of None \<Rightarrow> 0 | Some v \<Rightarrow> v) + 1 else 1))
               else sbk(kidId \<mapsto> 0))\<rparr>)) (chores state)"

definition addPoints :: "string \<Rightarrow> int \<Rightarrow> Kid list \<Rightarrow> Kid list" where
  "addPoints kidId points ks =
     map (\<lambda>k. if kid_id k = kidId then k\<lparr>kid_points := kid_points k + points\<rparr> else k) ks"

definition subPoints :: "string \<Rightarrow> int \<Rightarrow> Kid list \<Rightarrow> Kid list" where
  "subPoints kidId points ks =
     map (\<lambda>k. if kid_id k = kidId then k\<lparr>kid_points := max 0 (kid_points k - points)\<rparr> else k) ks"

text \<open>
  Lines 135-158: the streak bonus. It gives the kids and the bonus log after the award or
  the revocation, and \<open>None\<close> when the backward walk does not return. The id of a new
  bonus is the second \<^verbatim>\<open>nanoid()\<close> of the step when a completion record was pushed
  before it, and the first otherwise.
\<close>

definition bonusId :: "Env \<Rightarrow> State \<Rightarrow> string \<Rightarrow> string \<Rightarrow> ISODate \<Rightarrow> string" where
  "bonusId env state kidId choreId dateISO =
     (if findIndex (sameTriple kidId choreId dateISO) (completions state) = None
      then nanoid2 env else nanoid1 env)"

definition streakBonusStep ::
  "Zone \<Rightarrow> string \<Rightarrow> State \<Rightarrow> Completion list \<Rightarrow> Kid list \<Rightarrow> string \<Rightarrow> ISODate
     \<Rightarrow> (Kid list \<times> StreakBonus list) option" where
  "streakBonusStep z newId state completions' kids1 kidId dateISO =
     (let fullToday = isFullDayDone z (state\<lparr>completions := completions'\<rparr>) kidId dateISO;
          existingBonusForToday =
            find (\<lambda>b. b_kidId b = kidId \<and> b_dateISO b = dateISO) (streakBonuses state)
      in if fullToday then
           (case consecutiveFullDaysEndingOn z (state\<lparr>completions := completions'\<rparr>) kidId dateISO of
              None \<Rightarrow> None
            | Some run \<Rightarrow>
                if run > 0 \<and> run mod 10 = 0 \<and> existingBonusForToday = None then
                  (let points = 5;
                       bonus = \<lparr>b_id = newId, b_kidId = kidId, b_dateISO = dateISO,
                                b_streakLength = int run, b_points = points\<rparr>
                   in Some (addPoints kidId points kids1, bonus # streakBonuses state))
                else Some (kids1, streakBonuses state))
         else
           (case existingBonusForToday of
              Some existing \<Rightarrow>
                Some (subPoints kidId (b_points existing) kids1,
                      filter (\<lambda>b. b_id b \<noteq> b_id existing) (streakBonuses state))
            | None \<Rightarrow> Some (kids1, streakBonuses state)))"

text \<open>
  Lines 99-161. The result is \<open>None\<close> when the step does not return,
  \<open>Some (Inl e)\<close> when it throws and \<open>Some (Inr state')\<close> otherwise.
\<close>

definition toggleComplete :: "Env \<Rightarrow> State \<Rightarrow> string \<Rightarrow> string \<Rightarrow> ISODate \<Rightarrow> (error + State) option" where
  "toggleComplete env state kidId choreId dateISO =
     (let completed = toggleCompleted state kidId choreId dateISO;
          completions' = toggleCompletions env state kidId choreId dateISO;
          chore = find (\<lambda>c. chore_id c = choreId) (chores state)
      in case togglePoints chore (wasChecked state kidId choreId dateISO) completed kidId (kids state) of
           Inl e \<Rightarrow> Some (Inl e)
         | Inr kids1 \<Rightarrow>
            (let chores' = toggleStreaks (zone env) state completed kidId choreId dateISO in
             case streakBonusStep (zone env) (bonusId env state kidId choreId dateISO) state
                    completions' kids1 kidId dateISO of
               None \<Rightarrow> None
             | Some (kids', streakBonuses') \<Rightarrow>
                 Some (Inr (state\<lparr>kids := kids', completions := completions', chores := chores',
                                   streakBonuses := streakBonuses'\<rparr>))))"

text \<open>Lines 90-97: \<^verbatim>\<open>orderMap\<close>, built by \<^verbatim>\<open>forEach\<close> (a later duplicate overwrites).\<close>

fun orderMapFrom :: "nat \<Rightarrow> string list \<Rightarrow> (string \<rightharpoonup> int) \<Rightarrow> (string \<rightharpoonup> int)" where
  "orderMapFrom i [] m = m"
| "orderMapFrom i (x # xs) m = orderMapFrom (Suc i) xs (m(x \<mapsto> int i + 1))"

definition orderKey :: "Chore \<Rightarrow> int" where
  "orderKey c = (case chore_order c of None \<Rightarrow> 0 | Some v \<Rightarrow> v)"

definition reorderChores :: "string list \<Rightarrow> Chore list \<Rightarrow> Chore list" where
  "reorderChores orderedIds cs =
     (let orderMap = orderMapFrom 0 orderedIds Map.empty in
      sort_key orderKey
        (map (\<lambda>c. c\<lparr>chore_order := Some (case orderMap (chore_id c) of
                                           Some v \<Rightarrow> v
                                         | None \<Rightarrow> (case chore_order c of Some v \<Rightarrow> v | None \<Rightarrow> 9999))\<rparr>) cs))"

definition defaultState :: State where
  "defaultState =
     \<lparr>kids = [], chores = [], rewards = [], completions = [], payouts = [],
      adjustments = [], streakBonuses = [],
      settings = \<lparr>dollarsPerPoint = 1 / 10, hideCompletedOnBoard = True\<rparr>,
      version = 3\<rparr>"

definition reducer :: "Env \<Rightarrow> State \<Rightarrow> Action \<Rightarrow> (error + State) option" where
  "reducer env state action =
     (case action of
        ADD_KID name color avatarEmoji \<Rightarrow>
          (let pick = (case truthy color of
                         Some c \<Rightarrow> c
                       | None \<Rightarrow> pastelPool ! (length (kids state) mod length pastelPool));
               kid = \<lparr>kid_id = nanoid1 env, kid_name = trim name, kid_color = Some pick,
                      kid_avatarUrl = None, kid_avatarEmoji = truthy avatarEmoji, kid_points = 0\<rparr>
           in Some (Inr (state\<lparr>kids := kids state @ [kid]\<rparr>)))
      | ADJUST_POINTS_WITH_REASON kidId delta reason \<Rightarrow>
          (let kids' = map (\<lambda>k. if kid_id k = kidId
                                 then k\<lparr>kid_points := max 0 (kid_points k + delta)\<rparr> else k) (kids state);
               adjustments' =
                 \<lparr>a_id = nanoid1 env, a_kidId = kidId, a_delta = delta,
                  a_reason = (if trim reason \<noteq> [] then trim reason
                              else (if delta > 0 then ''+'' else ''-'') @ ''adjust''),
                  a_timestampISO = now env\<rparr> # adjustments state
           in Some (Inr (state\<lparr>kids := kids', adjustments := adjustments'\<rparr>)))
      | UPDATE_SETTINGS dpp hide \<Rightarrow>
          Some (Inr (state\<lparr>settings :=
            \<lparr>dollarsPerPoint = (case dpp of Some v \<Rightarrow> v | None \<Rightarrow> dollarsPerPoint (settings state)),
             hideCompletedOnBoard = (case hide of Some v \<Rightarrow> v
                                     | None \<Rightarrow> hideCompletedOnBoard (settings state))\<rparr>\<rparr>))
      | ADD_CHORE nc \<Rightarrow>
          (let maxOrder = fold (\<lambda>c m. max m (orderKey c)) (chores state) 0;
               chore = \<lparr>chore_id = nanoid1 env, chore_title = nc_title nc, chore_points = nc_points nc,
                        chore_schedule = nc_schedule nc, assignedKidIds = nc_assignedKidIds nc,
                        streakByKid = Some Map.empty, chore_order = Some (maxOrder + 1)\<rparr>
           in Some (Inr (state\<lparr>chores := chores state @ [chore]\<rparr>)))
      | DELETE_CHORE cid \<Rightarrow>
          Some (Inr (state\<lparr>chores := filter (\<lambda>c. chore_id c \<noteq> cid) (chores state),
                            completions := filter (\<lambda>c. c_choreId c \<noteq> cid) (completions state)\<rparr>))
      | REORDER_CHORES orderedIds \<Rightarrow>
          Some (Inr (state\<lparr>chores := reorderChores orderedIds (chores state)\<rparr>))
      | TOGGLE_COMPLETE kidId choreId dateISO \<Rightarrow> toggleComplete env state kidId choreId dateISO
      | ADD_REWARD title cost \<Rightarrow>
          Some (Inr (state\<lparr>rewards := rewards state @
                       [\<lparr>reward_id = nanoid1 env, reward_title = title, reward_cost = cost\<rparr>]\<rparr>))
      | DELETE_REWARD rid \<Rightarrow>
          Some (Inr (state\<lparr>rewards := filter (\<lambda>r. reward_id r \<noteq> rid) (rewards state)\<rparr>))
      | REDEEM_REWARD kidId rewardId \<Rightarrow> Some (Inr state)
      | PAYOUT kidId period startISO endISO points \<Rightarrow>
          (let dollars = payoutDollars env points (dollarsPerPoint (settings state));
               payout = \<lparr>p_id = nanoid1 env, p_kidId = kidId, p_period = period, p_startISO = startISO,
                         p_endISO = endISO, p_points = points, p_dollars = dollars,
                         p_timestampISO = now env, p_note = None\<rparr>
           in Some (Inr (state\<lparr>payouts := payout # payouts state\<rparr>)))
      | RESET_ALL \<Rightarrow> Some (Inr defaultState)
      | REPLACE_ALL b \<Rightarrow>
          Some (Inr \<lparr>kids = bk_kids b, chores = bk_chores b, rewards = bk_rewards b,
                     completions = bk_completions b, payouts = bk_payouts b,
                     adjustments = (case bk_adjustments b of Some v \<Rightarrow> v | None \<Rightarrow> []),
                     streakBonuses = (case bk_streakBonuses b of Some v \<Rightarrow> v | None \<Rightarrow> []),
                     settings = bk_settings b,
                     version = (case bk_version b of Some v \<Rightarrow> v | None \<Rightarrow> 3)\<rparr>))"

section \<open>Persistence (src/storage.ts)\<close>

definition KEY :: string where
  "KEY = ''skylight_kids_state_v2''"

definition emptyStored :: Backup where
  "emptyStored =
     \<lparr>bk_kids = [], bk_chores = [], bk_rewards = [], bk_completions = [], bk_payouts = [],
      bk_adjustments = None, bk_streakBonuses = None,
      bk_settings = \<lparr>dollarsPerPoint = 1 / 10, hideCompletedOnBoard = True\<rparr>,
      bk_version = Some 2\<rparr>"

definition orElse :: "'a option \<Rightarrow> 'a \<Rightarrow> 'a" where
  "orElse v d = (case v of Some x \<Rightarrow> x | None \<Rightarrow> d)"

text \<open>
  \<^verbatim>\<open>loadState\<close>, with the local storage as a map and \<^verbatim>\<open>JSON.parse\<close> as a parameter
  (\<open>Inl SyntaxError\<close> when it throws). \<^verbatim>\<open>!raw\<close> holds for \<^verbatim>\<open>null\<close> and for the empty string.
\<close>

definition loadState :: "(string \<Rightarrow> error + Parsed) \<Rightarrow> (string \<rightharpoonup> string) \<Rightarrow> Backup" where
  "loadState JSON_parse localStorage =
     (case localStorage KEY of
        None \<Rightarrow> emptyStored
      | Some raw \<Rightarrow>
          if raw = [] then emptyStored
          else (case JSON_parse raw of
                  Inl e \<Rightarrow> emptyStored
                | Inr parsed \<Rightarrow>
                    \<lparr>bk_kids = orElse (pj_kids parsed) [],
                     bk_chores = orElse (pj_chores parsed) [],
                     bk_rewards = orElse (pj_rewards parsed) [],
                     bk_completions = orElse (pj_completions parsed) [],
                     bk_payouts = orElse (pj_payouts parsed) [],
                     bk_adjustments = pj_adjustments parsed,
                     bk_streakBonuses = pj_streakBonuses parsed,
                     bk_settings = orElse (pj_settings parsed)
                                     \<lparr>dollarsPerPoint = 1 / 10, hideCompletedOnBoard = True\<rparr>,
                     bk_version = Some (orElse (pj_version parsed) 2)\<rparr>))"

text \<open>\<^verbatim>\<open>usePersistentState\<close>: the initial state of the reducer, with the newer arrays back-filled.\<close>

definition initialState :: "Backup \<Rightarrow> State" where
  "initialState s =
     \<lparr>kids = bk_kids s, chores = bk_chores s, rewards = bk_rewards s,
      completions = bk_completions s, payouts = bk_payouts s,
      adjustments = orElse (bk_adjustments s) [],
      streakBonuses = orElse (bk_streakBonuses s) [],
      settings = bk_settings s,
      version = orElse (bk_version s) 2\<rparr>"

section \<open>Running the reducer, and a scenario state\<close>

text \<open>A sequence of dispatched actions, each with its environment; it stops at the first throw.\<close>

fun runActions :: "State \<Rightarrow> (Env \<times> Action) list \<Rightarrow> (error + State) option" where
  "runActions s [] = Some (Inr s)"
| "runActions s ((env, a) # rest) =
     (case reducer env s a of Some (Inr s') \<Rightarrow> runActions s' rest | r \<Rightarrow> r)"

definition kidK :: Kid where
  "kidK = \<lparr>kid_id = ''K'', kid_name = ''Kim'', kid_color = None, kid_avatarUrl = None,
           kid_avatarEmoji = None, kid_points = 0\<rparr>"

definition choreC :: Chore where
  "choreC = \<lparr>chore_id = ''C'', chore_title = ''Dishes'', chore_points = 3, chore_schedule = Daily,
             assignedKidIds = [''K''], streakByKid = Some Map.empty, chore_order = Some 1\<rparr>"

definition scenarioState :: State where
  "scenarioState = defaultState\<lparr>kids := [kidK], chores := [choreC]\<rparr>"

text \<open>
  Environments for the examples: in a zone at or east of UTC (\<open>envDay\<close>) and west of it
  (\<open>envWest\<close>), with distinct ids for each step.
\<close>

definition envDay :: "nat \<Rightarrow> Env" where
  "envDay i = \<lparr>nanoid1 = CHR ''c'' # replicate i (CHR ''i''),
               nanoid2 = CHR ''b'' # replicate i (CHR ''i''), now = ''2024-01-01T00:00:00.000Z'',
               zone = AtOrEastOfUTC, payoutDollars = (\<lambda>points rate. of_int points * rate)\<rparr>"

definition envWest :: "nat \<Rightarrow> Env" where
  "envWest i = (envDay i)\<lparr>zone := WestOfUTC\<rparr>"

definition tenDays :: "(Env \<times> Action) list" where
  "tenDays = map (\<lambda>i. (envDay i, TOGGLE_COMPLETE ''K'' ''C'' (int i))) [1..<11]"

definition tenDaysWest :: "(Env \<times> Action) list" where
  "tenDaysWest = map (\<lambda>i. (envWest i, TOGGLE_COMPLETE ''K'' ''C'' (int i))) [1..<11]"

definition streakOf :: "string \<Rightarrow> Chore \<Rightarrow> int option" where
  "streakOf kidId ch = (case streakByKid ch of None \<Rightarrow> None | Some m \<Rightarrow> m kidId)"

definition doneOn :: "ISODate \<Rightarrow> Completion" where
  "doneOn d = \<lparr>c_id = ''c'', c_choreId = ''C'', c_kidId = ''K'', c_date = d, c_completed = True\<rparr>"

text \<open>A state as a backup blob, as \<^verbatim>\<open>handleBackup\<close> writes it: every field present.\<close>

definition backupOf :: "State \<Rightarrow> Backup" where
  "backupOf s =
     \<lparr>bk_kids = kids s, bk_chores = chores s, bk_rewards = rewards s,
      bk_completions = completions s, bk_payouts = payouts s,
      bk_adjustments = Some (adjustments s), bk_streakBonuses = Some (streakBonuses s),
      bk_settings = settings s, bk_version = Some (version s)\<rparr>"

definition nonNegative :: "Kid list \<Rightarrow> bool" where
  "nonNegative ks = list_all (\<lambda>k. 0 \<le> kid_points k) ks"




















section \<open>The backward walk\<close>

lemma isFullDayDone_completion:
  assumes "isFullDayDone z s k d"
  shows "\<exists>c\<in>set (completions s). c_date c = d"
proof -
  let ?due = "choresDueForKidOnDate z s k d"
  from assms have ne: "?due \<noteq> []" and every: "list_all (\<lambda>ch.
             list_ex (\<lambda>c. c_kidId c = k \<and> c_choreId c = chore_id ch \<and> c_date c = d
                          \<and> c_completed c) (completions s)) ?due"
    by (auto simp: isFullDayDone_def Let_def split: if_splits)
  from ne obtain ch where "ch \<in> set ?due" by (cases ?due) auto
  with every show ?thesis by (auto simp: list_all_iff list_ex_iff)
qed

lemma filter_length_less:
  assumes "\<And>x. P x \<Longrightarrow> Q x" and "x \<in> set xs" and "Q x" and "\<not> P x"
  shows "length (filter P xs) < length (filter Q xs)"
  using assms(2-4)
proof (induction xs)
  case Nil then show ?case by simp
next
  case (Cons y ys)
  have le: "length (filter P ys) \<le> length (filter Q ys)"
    by (induction ys) (auto simp: assms(1))
  show ?case
  proof (cases "x = y")
    case True with Cons.prems le show ?thesis by simp
  next
    case False
    with Cons have "length (filter P ys) < length (filter Q ys)" by simp
    then show ?thesis by (auto simp: assms(1))
  qed
qed

text \<open>
  Each full day holds a completion record of that day, so the records dated at or before
  the current day get fewer with every turn of the loop: the walk leaves.
\<close>

lemma consecutiveLoop_spec:
  "\<exists>m. consecutiveLoop z s k n d = Some (n + m)
       \<and> (\<forall>i<m. isFullDayDone z s k (d - int i)) \<and> \<not> isFullDayDone z s k (d - int m)"
proof (induction "length (filter (\<lambda>c. c_date c \<le> d) (completions s))" arbitrary: n d rule: less_induct)
  case less
  show ?case
  proof (cases "isFullDayDone z s k d")
    case False
    then have "consecutiveLoop z s k n d = Some (n + 0)"
      by (subst consecutiveLoop.simps) (simp add: toISO_def)
    with False show ?thesis by (intro exI[of _ 0]) simp
  next
    case True
    then obtain c where c: "c \<in> set (completions s)" "c_date c = d"
      using isFullDayDone_completion by blast
    have "length (filter (\<lambda>c. c_date c \<le> d - 1) (completions s))
          < length (filter (\<lambda>c. c_date c \<le> d) (completions s))"
      by (rule filter_length_less[OF _ c(1)]) (use c(2) in auto)
    from less[OF this, of "n + 1"] obtain m where
      m: "consecutiveLoop z s k (n + 1) (d - 1) = Some (n + 1 + m)"
         "\<forall>i<m. isFullDayDone z s k (d - 1 - int i)" "\<not> isFullDayDone z s k (d - 1 - int m)"
      by blast
    have "consecutiveLoop z s k n d = Some (n + Suc m)"
      using True m(1) by (subst consecutiveLoop.simps) (simp add: toISO_def addDays_def)
    moreover have "\<forall>i<Suc m. isFullDayDone z s k (d - int i)"
    proof (intro allI impI)
      fix i assume "i < Suc m"
      show "isFullDayDone z s k (d - int i)"
      proof (cases i)
        case 0 with True show ?thesis by simp
      next
        case (Suc j)
        with \<open>i < Suc m\<close> m(2) have "isFullDayDone z s k (d - 1 - int j)" by simp
        with Suc show ?thesis by (simp add: algebra_simps)
      qed
    qed
    moreover have "\<not> isFullDayDone z s k (d - int (Suc m))"
      using m(3) by (simp add: algebra_simps)
    ultimately show ?thesis by blast
  qed
qed

lemma consecutiveFullDaysEndingOn_returns:
  "\<exists>run. consecutiveFullDaysEndingOn z s k d = Some run"
  using consecutiveLoop_spec[of z s k 0 "newDate z d"]
  by (auto simp: consecutiveFullDaysEndingOn_def)



section \<open>The ten-day scenario\<close>

text \<open>
  C2. One kid K, one daily chore worth 3 points assigned only to K, the chore toggled
  complete on days 1 to 10. In a zone at or east of UTC K then has 35 points and exactly
  one streak bonus, of streak length 10, and toggling day 10 off again gives 27 points, no
  streak bonus and a streak counter of 0. In a zone west of UTC the walk of the tenth toggle
  starts on day 9: the run is 9, no bonus is awarded and K has 30 points.
\<close>

theorem ten_day_scenario_by_zone:
  "(case runActions scenarioState tenDays of
      Some (Inr s10) \<Rightarrow>
        map kid_points (kids s10) = [35]
        \<and> map b_streakLength (streakBonuses s10) = [10]
        \<and> (case reducer (envDay 11) s10 (TOGGLE_COMPLETE ''K'' ''C'' 10) of
             Some (Inr s11) \<Rightarrow>
               map kid_points (kids s11) = [27]
               \<and> streakBonuses s11 = []
               \<and> map (streakOf ''K'') (chores s11) = [Some 0]
           | _ \<Rightarrow> False)
    | _ \<Rightarrow> False)
   \<and> (case runActions scenarioState tenDaysWest of
        Some (Inr s10) \<Rightarrow>
          map kid_points (kids s10) = [30]
          \<and> streakBonuses s10 = []
          \<and> consecutiveFullDaysEndingOn WestOfUTC s10 ''K'' 10 = Some 9
      | _ \<Rightarrow> False)"
  by code_simp

section \<open>Facts about one toggle\<close>

lemma findIndex_None_iff: "findIndex P xs = None \<longleftrightarrow> (\<forall>x\<in>set xs. \<not> P x)"
  by (induction xs) auto

lemma findIndex_Some:
  "findIndex P xs = Some i \<Longrightarrow> i < length xs \<and> P (xs ! i) \<and> (\<forall>j<i. \<not> P (xs ! j))"
proof (induction xs arbitrary: i)
  case Nil then show ?case by simp
next
  case (Cons x xs)
  show ?case
  proof (cases "P x")
    case True with Cons.prems show ?thesis by simp
  next
    case False
    with Cons.prems obtain j where j: "findIndex P xs = Some j" "i = Suc j" by auto
    from Cons.IH[OF j(1)] False j(2) show ?thesis
      by (auto simp: less_Suc_eq_0_disj)
  qed
qed

lemma wasChecked_toggleCompleted:
  "wasChecked s kidId choreId d = (\<not> toggleCompleted s kidId choreId d)"
  by (simp add: wasChecked_def toggleCompleted_def split: option.splits)

lemma togglePoints_no_kid:
  "kidId \<notin> kid_id ` set ks \<Longrightarrow> togglePoints chore was completed kidId ks = Inr ks"
  by (induction ks) auto


lemma togglePoints_None_kid:
  "kidId \<in> kid_id ` set ks \<Longrightarrow> was = (\<not> completed) \<Longrightarrow>
     togglePoints None was completed kidId ks = Inl TypeError"
  by (induction ks) auto

lemma addPoints_no_kid: "kidId \<notin> kid_id ` set ks \<Longrightarrow> addPoints kidId p ks = ks"
  by (induction ks) (auto simp: addPoints_def)

lemma subPoints_no_kid: "kidId \<notin> kid_id ` set ks \<Longrightarrow> subPoints kidId p ks = ks"
  by (induction ks) (auto simp: subPoints_def)

lemma streakBonusStep_award:
  assumes "isFullDayDone z (s\<lparr>completions := cs\<rparr>) kidId d"
    and "consecutiveFullDaysEndingOn z (s\<lparr>completions := cs\<rparr>) kidId d = Some run"
    and "run > 0" "run mod 10 = 0"
    and "find (\<lambda>b. b_kidId b = kidId \<and> b_dateISO b = d) (streakBonuses s) = None"
  shows "streakBonusStep z newId s cs kids1 kidId d =
           Some (addPoints kidId 5 kids1,
                 \<lparr>b_id = newId, b_kidId = kidId, b_dateISO = d, b_streakLength = int run,
                  b_points = 5\<rparr> # streakBonuses s)"
  using assms by (simp add: streakBonusStep_def Let_def)

lemma streakBonusStep_full_keep:
  assumes "isFullDayDone z (s\<lparr>completions := cs\<rparr>) kidId d"
    and "consecutiveFullDaysEndingOn z (s\<lparr>completions := cs\<rparr>) kidId d = Some run"
    and "\<not> (run > 0 \<and> run mod 10 = 0
            \<and> find (\<lambda>b. b_kidId b = kidId \<and> b_dateISO b = d) (streakBonuses s) = None)"
  shows "streakBonusStep z newId s cs kids1 kidId d = Some (kids1, streakBonuses s)"
  using assms unfolding streakBonusStep_def Let_def by auto

lemma streakBonusStep_revoke:
  assumes "\<not> isFullDayDone z (s\<lparr>completions := cs\<rparr>) kidId d"
    and "find (\<lambda>b. b_kidId b = kidId \<and> b_dateISO b = d) (streakBonuses s) = Some b"
  shows "streakBonusStep z newId s cs kids1 kidId d =
           Some (subPoints kidId (b_points b) kids1, filter (\<lambda>x. b_id x \<noteq> b_id b) (streakBonuses s))"
  using assms by (simp add: streakBonusStep_def Let_def)

lemma streakBonusStep_not_full_keep:
  assumes "\<not> isFullDayDone z (s\<lparr>completions := cs\<rparr>) kidId d"
    and "find (\<lambda>b. b_kidId b = kidId \<and> b_dateISO b = d) (streakBonuses s) = None"
  shows "streakBonusStep z newId s cs kids1 kidId d = Some (kids1, streakBonuses s)"
  using assms by (simp add: streakBonusStep_def Let_def)

lemma streakBonusStep_cases [case_names keep award revoke]:
  obtains
    (keep) "streakBonusStep z newId s cs kids1 kidId d = Some (kids1, streakBonuses s)"
  | (award) run where
      "isFullDayDone z (s\<lparr>completions := cs\<rparr>) kidId d"
      "consecutiveFullDaysEndingOn z (s\<lparr>completions := cs\<rparr>) kidId d = Some run"
      "run > 0" "run mod 10 = 0"
      "find (\<lambda>b. b_kidId b = kidId \<and> b_dateISO b = d) (streakBonuses s) = None"
      "streakBonusStep z newId s cs kids1 kidId d =
         Some (addPoints kidId 5 kids1,
               \<lparr>b_id = newId, b_kidId = kidId, b_dateISO = d, b_streakLength = int run,
                b_points = 5\<rparr> # streakBonuses s)"
  | (revoke) b where
      "\<not> isFullDayDone z (s\<lparr>completions := cs\<rparr>) kidId d"
      "find (\<lambda>b. b_kidId b = kidId \<and> b_dateISO b = d) (streakBonuses s) = Some b"
      "streakBonusStep z newId s cs kids1 kidId d =
         Some (subPoints kidId (b_points b) kids1, filter (\<lambda>x. b_id x \<noteq> b_id b) (streakBonuses s))"
proof (cases "isFullDayDone z (s\<lparr>completions := cs\<rparr>) kidId d")
  case True
  obtain run where run: "consecutiveFullDaysEndingOn z (s\<lparr>completions := cs\<rparr>) kidId d = Some run"
    using consecutiveFullDaysEndingOn_returns by blast
  show ?thesis
  proof (cases "run > 0 \<and> run mod 10 = 0
            \<and> find (\<lambda>b. b_kidId b = kidId \<and> b_dateISO b = d) (streakBonuses s) = None")
    case True
    then have r: "run > 0" "run mod 10 = 0"
      "find (\<lambda>b. b_kidId b = kidId \<and> b_dateISO b = d) (streakBonuses s) = None"
      by simp_all
    note full = \<open>isFullDayDone z (s\<lparr>completions := cs\<rparr>) kidId d\<close>
    show ?thesis
      by (rule award[OF full run r streakBonusStep_award[OF full run r]])
  next
    case False
    from streakBonusStep_full_keep[OF \<open>isFullDayDone z (s\<lparr>completions := cs\<rparr>) kidId d\<close> run False]
    show ?thesis by (rule keep)
  qed
next
  case False
  show ?thesis
  proof (cases "find (\<lambda>b. b_kidId b = kidId \<and> b_dateISO b = d) (streakBonuses s)")
    case None
    from streakBonusStep_not_full_keep[OF False None] show ?thesis by (rule keep)
  next
    case (Some b)
    from False Some streakBonusStep_revoke[OF False Some] show ?thesis by (rule revoke)
  qed
qed

lemma toggleComplete_Inr:
  assumes "togglePoints (find (\<lambda>c. chore_id c = choreId) (chores s))
                 (wasChecked s kidId choreId d) (toggleCompleted s kidId choreId d) kidId (kids s) = Inr kids1"
    and "streakBonusStep (zone env) (bonusId env s kidId choreId d) s (toggleCompletions env s kidId choreId d) kids1 kidId d
           = Some (kids', bonuses')"
  shows "toggleComplete env s kidId choreId d =
           Some (Inr (s\<lparr>kids := kids', completions := toggleCompletions env s kidId choreId d,
                        chores := toggleStreaks (zone env) s (toggleCompleted s kidId choreId d) kidId choreId d,
                        streakBonuses := bonuses'\<rparr>))"
  using assms by (simp add: toggleComplete_def Let_def)

lemma toggleComplete_Inl:
  assumes "togglePoints (find (\<lambda>c. chore_id c = choreId) (chores s))
                 (wasChecked s kidId choreId d) (toggleCompleted s kidId choreId d) kidId (kids s) = Inl e"
  shows "toggleComplete env s kidId choreId d = Some (Inl e)"
  using assms by (simp add: toggleComplete_def Let_def)

section \<open>Unknown kids and chores, and the stored default\<close>

lemma toggleStreaks_no_chore:
  "\<forall>ch\<in>set (chores s). chore_id ch \<noteq> choreId \<Longrightarrow> toggleStreaks z s completed kidId choreId d = chores s"
  unfolding toggleStreaks_def by (induction "chores s") (auto simp: map_idI)

lemma streakBonusStep_no_kid:
  assumes "kidId \<notin> kid_id ` set ks"
  shows "\<exists>bonuses'. streakBonusStep z newId s cs ks kidId d = Some (ks, bonuses')"
  by (cases rule: streakBonusStep_cases[of z newId s cs ks kidId d])
     (simp_all add: addPoints_no_kid[OF assms] subPoints_no_kid[OF assms])

text \<open>
  C10. For every state, every kid id that no kid of the state has, every chore id of a
  chore of the state and every date with no completion record for the triple,
  TOGGLE_COMPLETE returns a state whose completions are the old ones followed by a new
  record for the triple, which names the nonexistent kid, and whose kids are unchanged.
\<close>

theorem toggle_unknown_kid_inserts:
  assumes "kidId \<notin> kid_id ` set (kids s)"
    and "\<exists>ch\<in>set (chores s). chore_id ch = choreId"
    and "\<forall>c\<in>set (completions s). \<not> (c_kidId c = kidId \<and> c_choreId c = choreId \<and> c_date c = d)"
  shows "\<exists>s'. reducer env s (TOGGLE_COMPLETE kidId choreId d) = Some (Inr s')
              \<and> completions s' = completions s @
                   [\<lparr>c_id = nanoid1 env, c_choreId = choreId, c_kidId = kidId, c_date = d,
                     c_completed = True\<rparr>]
              \<and> kids s' = kids s"
proof -
  have idx: "findIndex (sameTriple kidId choreId d) (completions s) = None"
    using assms(3) by (simp add: findIndex_None_iff sameTriple_def)
  have cs: "toggleCompletions env s kidId choreId d = completions s @
                   [\<lparr>c_id = nanoid1 env, c_choreId = choreId, c_kidId = kidId, c_date = d,
                     c_completed = True\<rparr>]"
    by (simp add: toggleCompletions_def idx)
  obtain bonuses' where
    "streakBonusStep (zone env) (bonusId env s kidId choreId d) s (toggleCompletions env s kidId choreId d)
       (kids s) kidId d = Some (kids s, bonuses')"
    using streakBonusStep_no_kid[OF assms(1)] by blast
  from toggleComplete_Inr[OF togglePoints_no_kid[OF assms(1)] this]
  show ?thesis by (simp add: reducer_def cs)
qed

theorem toggle_unknown_kid_inserts_witness:
  "''Z'' \<notin> kid_id ` set (kids scenarioState)
   \<and> (\<exists>ch\<in>set (chores scenarioState). chore_id ch = ''C'')
   \<and> (\<exists>s'. reducer (envDay 1) scenarioState (TOGGLE_COMPLETE ''Z'' ''C'' 1) = Some (Inr s')
          \<and> completions s' = [\<lparr>c_id = ''ci'', c_choreId = ''C'', c_kidId = ''Z'', c_date = 1,
                                c_completed = True\<rparr>]
          \<and> kids s' = [kidK])"
proof -
  have a: "''Z'' \<notin> kid_id ` set (kids scenarioState)"
    by (simp add: scenarioState_def kidK_def)
  have b: "\<exists>ch\<in>set (chores scenarioState). chore_id ch = ''C''"
    by (simp add: scenarioState_def choreC_def)
  have c: "\<forall>c\<in>set (completions scenarioState). \<not> (c_kidId c = ''Z'' \<and> c_choreId c = ''C'' \<and> c_date c = 1)"
    by (simp add: scenarioState_def defaultState_def)
  from toggle_unknown_kid_inserts[OF a b c, of "envDay 1"] a b show ?thesis
    by (simp add: scenarioState_def defaultState_def envDay_def)
qed

text \<open>
  C4 as stated fails: with chore id \<open>X\<close> absent from the state and kid id \<open>Z\<close> absent
  too, TOGGLE_COMPLETE throws nothing and returns a state with a new completion record
  for the missing chore.
\<close>

theorem toggle_unknown_chore_no_error:
  "''X'' \<notin> chore_id ` set (chores scenarioState)
   \<and> (case reducer (envDay 1) scenarioState (TOGGLE_COMPLETE ''Z'' ''X'' 1) of
        Some (Inr s') \<Rightarrow> map c_choreId (completions s') = [''X''] \<and> completions scenarioState = []
      | _ \<Rightarrow> False)"
  by code_simp

lemma findIndex_first:
  assumes "i < length xs" and "P (xs ! i)" and "\<forall>j<i. \<not> P (xs ! j)"
  shows "findIndex P xs = Some i"
proof (cases "findIndex P xs")
  case None
  with assms(1,2) show ?thesis by (auto simp: findIndex_None_iff)
next
  case (Some k)
  from findIndex_Some[OF Some] have k: "k < length xs" "P (xs ! k)" "\<forall>j<k. \<not> P (xs ! j)"
    by simp_all
  from k(2) assms(3) have "\<not> k < i" by blast
  moreover from assms(2) k(3) have "\<not> i < k" by blast
  ultimately show ?thesis using Some by simp
qed

text \<open>
  C4 (amended). For every state and every chore id that no chore of the state has:
  when some kid has the given kid id, TOGGLE_COMPLETE throws a TypeError (it reads
  \<^verbatim>\<open>points\<close> of the chore that was not found); when no kid has it, the step throws
  nothing and returns a state with the same kids and chores and the completion toggled:
  a new record is appended when the triple has none, and otherwise the first record of the
  triple is removed when it is completed and set to completed when it is not.
  There is no NotFoundError in the code.
\<close>

theorem toggle_unknown_chore:
  assumes "\<forall>ch\<in>set (chores s). chore_id ch \<noteq> choreId"
  shows "(kidId \<in> kid_id ` set (kids s) \<longrightarrow>
            reducer env s (TOGGLE_COMPLETE kidId choreId d) = Some (Inl TypeError))
       \<and> (kidId \<notin> kid_id ` set (kids s) \<longrightarrow>
            (\<exists>s'. reducer env s (TOGGLE_COMPLETE kidId choreId d) = Some (Inr s')
                 \<and> kids s' = kids s \<and> chores s' = chores s
                 \<and> ((\<forall>c\<in>set (completions s).
                        \<not> (c_kidId c = kidId \<and> c_choreId c = choreId \<and> c_date c = d))
                      \<longrightarrow> completions s' = completions s @
                            [\<lparr>c_id = nanoid1 env, c_choreId = choreId, c_kidId = kidId, c_date = d,
                              c_completed = True\<rparr>])
                 \<and> (\<forall>i<length (completions s).
                        (c_kidId (completions s ! i) = kidId \<and> c_choreId (completions s ! i) = choreId
                           \<and> c_date (completions s ! i) = d)
                        \<and> (\<forall>j<i. \<not> (c_kidId (completions s ! j) = kidId
                                      \<and> c_choreId (completions s ! j) = choreId
                                      \<and> c_date (completions s ! j) = d))
                      \<longrightarrow> completions s' =
                            (if c_completed (completions s ! i)
                             then take i (completions s) @ drop (Suc i) (completions s)
                             else (completions s)[i := (completions s ! i)\<lparr>c_completed := True\<rparr>]))))"
proof (intro conjI impI)
  assume k: "kidId \<in> kid_id ` set (kids s)"
  have "find (\<lambda>c. chore_id c = choreId) (chores s) = None"
    using assms by (simp add: find_None_iff)
  with togglePoints_None_kid[OF k wasChecked_toggleCompleted]
  show "reducer env s (TOGGLE_COMPLETE kidId choreId d) = Some (Inl TypeError)"
    by (simp add: reducer_def toggleComplete_Inl)
next
  assume k: "kidId \<notin> kid_id ` set (kids s)"
  let ?P = "sameTriple kidId choreId d"
  obtain bonuses' where
    "streakBonusStep (zone env) (bonusId env s kidId choreId d) s (toggleCompletions env s kidId choreId d)
       (kids s) kidId d = Some (kids s, bonuses')"
    using streakBonusStep_no_kid[OF k] by blast
  from toggleComplete_Inr[OF togglePoints_no_kid[OF k] this]
  have r: "reducer env s (TOGGLE_COMPLETE kidId choreId d) =
             Some (Inr (s\<lparr>kids := kids s, completions := toggleCompletions env s kidId choreId d,
                          chores := chores s, streakBonuses := bonuses'\<rparr>))"
    by (simp add: reducer_def toggleStreaks_no_chore[OF assms])
  have ins: "toggleCompletions env s kidId choreId d = completions s @
               [\<lparr>c_id = nanoid1 env, c_choreId = choreId, c_kidId = kidId, c_date = d,
                 c_completed = True\<rparr>]"
    if "\<forall>c\<in>set (completions s). \<not> (c_kidId c = kidId \<and> c_choreId c = choreId \<and> c_date c = d)"
  proof -
    from that have "findIndex ?P (completions s) = None"
      by (simp add: findIndex_None_iff sameTriple_def)
    then show ?thesis by (simp add: toggleCompletions_def)
  qed
  have upd: "toggleCompletions env s kidId choreId d =
               (if c_completed (completions s ! i)
                then take i (completions s) @ drop (Suc i) (completions s)
                else (completions s)[i := (completions s ! i)\<lparr>c_completed := True\<rparr>])"
    if "i < length (completions s)" and "?P (completions s ! i)"
      and "\<forall>j<i. \<not> ?P (completions s ! j)" for i
  proof -
    from findIndex_first[of i "completions s" ?P, OF that]
    show ?thesis by (simp add: toggleCompletions_def Let_def)
  qed
  define s' where "s' = s\<lparr>kids := kids s, completions := toggleCompletions env s kidId choreId d,
                          chores := chores s, streakBonuses := bonuses'\<rparr>"
  have s': "completions s' = toggleCompletions env s kidId choreId d" "kids s' = kids s"
    "chores s' = chores s"
    by (simp_all add: s'_def)
  have r': "reducer env s (TOGGLE_COMPLETE kidId choreId d) = Some (Inr s')"
    using r by (simp add: s'_def)
  have A: "(\<forall>c\<in>set (completions s).
              \<not> (c_kidId c = kidId \<and> c_choreId c = choreId \<and> c_date c = d))
           \<longrightarrow> completions s' = completions s @
                 [\<lparr>c_id = nanoid1 env, c_choreId = choreId, c_kidId = kidId, c_date = d,
                   c_completed = True\<rparr>]"
  proof (intro impI)
    assume h: "\<forall>c\<in>set (completions s).
                 \<not> (c_kidId c = kidId \<and> c_choreId c = choreId \<and> c_date c = d)"
    from ins[OF h] show "completions s' = completions s @
                 [\<lparr>c_id = nanoid1 env, c_choreId = choreId, c_kidId = kidId, c_date = d,
                   c_completed = True\<rparr>]"
      by (simp add: s'(1))
  qed
  have B: "\<forall>i<length (completions s).
              (c_kidId (completions s ! i) = kidId \<and> c_choreId (completions s ! i) = choreId
                 \<and> c_date (completions s ! i) = d)
              \<and> (\<forall>j<i. \<not> (c_kidId (completions s ! j) = kidId
                            \<and> c_choreId (completions s ! j) = choreId
                            \<and> c_date (completions s ! j) = d))
            \<longrightarrow> completions s' =
                  (if c_completed (completions s ! i)
                   then take i (completions s) @ drop (Suc i) (completions s)
                   else (completions s)[i := (completions s ! i)\<lparr>c_completed := True\<rparr>])"
  proof (intro allI impI)
    fix i
    assume i: "i < length (completions s)"
      and h: "(c_kidId (completions s ! i) = kidId \<and> c_choreId (completions s ! i) = choreId
                 \<and> c_date (completions s ! i) = d)
              \<and> (\<forall>j<i. \<not> (c_kidId (completions s ! j) = kidId
                            \<and> c_choreId (completions s ! j) = choreId
                            \<and> c_date (completions s ! j) = d))"
    from h have p: "?P (completions s ! i)" "\<forall>j<i. \<not> ?P (completions s ! j)"
      by (simp_all add: sameTriple_def)
    from upd[OF i p] show "completions s' =
                  (if c_completed (completions s ! i)
                   then take i (completions s) @ drop (Suc i) (completions s)
                   else (completions s)[i := (completions s ! i)\<lparr>c_completed := True\<rparr>])"
      by (simp add: s'(1))
  qed
  show "\<exists>s'. reducer env s (TOGGLE_COMPLETE kidId choreId d) = Some (Inr s')
                 \<and> kids s' = kids s \<and> chores s' = chores s
                 \<and> ((\<forall>c\<in>set (completions s).
                        \<not> (c_kidId c = kidId \<and> c_choreId c = choreId \<and> c_date c = d))
                      \<longrightarrow> completions s' = completions s @
                            [\<lparr>c_id = nanoid1 env, c_choreId = choreId, c_kidId = kidId, c_date = d,
                              c_completed = True\<rparr>])
                 \<and> (\<forall>i<length (completions s).
                        (c_kidId (completions s ! i) = kidId \<and> c_choreId (completions s ! i) = choreId
                           \<and> c_date (completions s ! i) = d)
                        \<and> (\<forall>j<i. \<not> (c_kidId (completions s ! j) = kidId
                                      \<and> c_choreId (completions s ! j) = choreId
                                      \<and> c_date (completions s ! j) = d))
                      \<longrightarrow> completions s' =
                            (if c_completed (completions s ! i)
                             then take i (completions s) @ drop (Suc i) (completions s)
                             else (completions s)[i := (completions s ! i)\<lparr>c_completed := True\<rparr>]))"
    by (intro exI[of _ s'] conjI r' s'(2,3) A B)
qed

theorem toggle_unknown_chore_witness:
  "''X'' \<notin> chore_id ` set (chores scenarioState)
   \<and> ''K'' \<in> kid_id ` set (kids scenarioState)
   \<and> reducer (envDay 1) scenarioState (TOGGLE_COMPLETE ''K'' ''X'' 1) = Some (Inl TypeError)
   \<and> ''Z'' \<notin> kid_id ` set (kids scenarioState)
   \<and> (\<exists>s'. reducer (envDay 1) scenarioState (TOGGLE_COMPLETE ''Z'' ''X'' 1) = Some (Inr s')
          \<and> kids s' = [kidK] \<and> chores s' = [choreC]
          \<and> completions s' = [\<lparr>c_id = ''ci'', c_choreId = ''X'', c_kidId = ''Z'', c_date = 1,
                                c_completed = True\<rparr>])
   \<and> (\<exists>s'. reducer (envDay 2)
              (scenarioState\<lparr>completions := [doneOn 1, \<lparr>c_id = ''ci'', c_choreId = ''X'', c_kidId = ''Z'',
                                                         c_date = 1, c_completed = True\<rparr>]\<rparr>)
              (TOGGLE_COMPLETE ''Z'' ''X'' 1) = Some (Inr s')
          \<and> completions s' = [doneOn 1])"
proof -
  let ?rec = "\<lparr>c_id = ''ci'', c_choreId = ''X'', c_kidId = ''Z'', c_date = 1, c_completed = True\<rparr>"
  let ?t = "scenarioState\<lparr>completions := [doneOn 1, ?rec]\<rparr>"
  have a: "\<forall>ch\<in>set (chores scenarioState). chore_id ch \<noteq> ''X''"
    by (simp add: scenarioState_def choreC_def)
  have a': "\<forall>ch\<in>set (chores ?t). chore_id ch \<noteq> ''X''"
    by (simp add: scenarioState_def choreC_def)
  have x: "''X'' \<notin> chore_id ` set (chores scenarioState)"
    by (simp add: scenarioState_def choreC_def)
  have k: "''K'' \<in> kid_id ` set (kids scenarioState)"
    by (simp add: scenarioState_def kidK_def)
  have z: "''Z'' \<notin> kid_id ` set (kids scenarioState)"
    by (simp add: scenarioState_def kidK_def)
  have z': "''Z'' \<notin> kid_id ` set (kids ?t)"
    by (simp add: scenarioState_def kidK_def)
  from toggle_unknown_chore[OF a, of "''K''" "envDay 1" 1] k
  have 1: "reducer (envDay 1) scenarioState (TOGGLE_COMPLETE ''K'' ''X'' 1) = Some (Inl TypeError)"
    by simp
  from toggle_unknown_chore[OF a, of "''Z''" "envDay 1" 1, THEN conjunct2, rule_format, OF z]
  have 2: "\<exists>s'. reducer (envDay 1) scenarioState (TOGGLE_COMPLETE ''Z'' ''X'' 1) = Some (Inr s')
          \<and> kids s' = [kidK] \<and> chores s' = [choreC]
          \<and> completions s' = [?rec]"
    apply (elim exE conjE)
    subgoal for s'
      apply (rule exI[of _ s'])
      apply (simp add: scenarioState_def defaultState_def envDay_def)
      done
    done
  from toggle_unknown_chore[OF a', of "''Z''" "envDay 2" 1, THEN conjunct2, rule_format, OF z']
  have 3: "\<exists>s'. reducer (envDay 2) ?t (TOGGLE_COMPLETE ''Z'' ''X'' 1) = Some (Inr s')
          \<and> completions s' = [doneOn 1]"
    apply (elim exE conjE)
    subgoal for s'
      apply (rule exI[of _ s'])
      apply (drule spec[of _ 1])
      apply (simp add: doneOn_def)
      done
    done
  show ?thesis
    by (intro conjI x k 1 z 2 3)
qed

text \<open>
  C6 as stated fails: adjusting the unknown kid \<open>Z\<close> does not return the input state.
\<close>

theorem adjust_unknown_kid_changes_state:
  "''Z'' \<notin> kid_id ` set (kids scenarioState)
   \<and> reducer (envDay 1) scenarioState (ADJUST_POINTS_WITH_REASON ''Z'' 5 ''gift'') \<noteq> Some (Inr scenarioState)"
  by (simp add: reducer_def scenarioState_def defaultState_def kidK_def Let_def)

text \<open>
  C6 (amended). For every state and every kid id that no kid of the state has,
  ADJUST_POINTS_WITH_REASON throws nothing and changes no kid, but it still puts a new
  Adjustment record for that kid id (with the reason defaulted when blank) in front of
  the adjustments log; nothing else changes.
\<close>

theorem adjust_unknown_kid:
  assumes "kidId \<notin> kid_id ` set (kids s)"
  shows "reducer env s (ADJUST_POINTS_WITH_REASON kidId delta reason) =
           Some (Inr (s\<lparr>adjustments :=
             \<lparr>a_id = nanoid1 env, a_kidId = kidId, a_delta = delta,
              a_reason = (if trim reason \<noteq> [] then trim reason
                          else (if delta > 0 then ''+'' else ''-'') @ ''adjust''),
              a_timestampISO = now env\<rparr> # adjustments s\<rparr>))"
proof -
  have "map (\<lambda>k. if kid_id k = kidId then k\<lparr>kid_points := max 0 (kid_points k + delta)\<rparr> else k) (kids s)
        = kids s"
    using assms by (intro map_idI) auto
  then show ?thesis by (simp add: reducer_def Let_def)
qed

theorem adjust_unknown_kid_witness:
  "''Z'' \<notin> kid_id ` set (kids scenarioState)
   \<and> reducer (envDay 1) scenarioState (ADJUST_POINTS_WITH_REASON ''Z'' (- 5) ''  '') =
       Some (Inr (scenarioState\<lparr>adjustments :=
         [\<lparr>a_id = ''ci'', a_kidId = ''Z'', a_delta = - 5, a_reason = ''-adjust'',
           a_timestampISO = ''2024-01-01T00:00:00.000Z''\<rparr>]\<rparr>))"
proof -
  have z: "''Z'' \<notin> kid_id ` set (kids scenarioState)"
    by (simp add: scenarioState_def kidK_def)
  have t: "trim ''  '' = []" by (simp add: trim_def isSpace_def)
  from adjust_unknown_kid[OF z, of "envDay 1" "- 5" "''  ''"] z t show ?thesis
    by (simp add: envDay_def scenarioState_def defaultState_def)
qed

text \<open>
  C8. \<^verbatim>\<open>loadState\<close> is total, and on missing or unparseable data it returns
  \<open>emptyStored\<close>; but that default has schema version 2 and no \<^verbatim>\<open>adjustments\<close> or
  \<^verbatim>\<open>streakBonuses\<close> field, where the documented default (the one RESET_ALL returns) has
  version 3 and both collections empty. After the back-fill of \<^verbatim>\<open>usePersistentState\<close> the version
  is still 2.
\<close>

theorem loadState_default_is_version_2:
  "loadState JSON_parse Map.empty = emptyStored
   \<and> loadState (\<lambda>raw. Inl SyntaxError) [KEY \<mapsto> ''{oops''] = emptyStored
   \<and> bk_version emptyStored = Some 2
   \<and> bk_adjustments emptyStored = None
   \<and> bk_streakBonuses emptyStored = None
   \<and> version (initialState emptyStored) = 2
   \<and> version defaultState = 3"
  by (simp add: loadState_def emptyStored_def initialState_def defaultState_def orElse_def)

section \<open>Reordering chores\<close>






section \<open>Points never negative\<close>

lemma nonNegative_iff: "nonNegative ks \<longleftrightarrow> (\<forall>k\<in>set ks. 0 \<le> kid_points k)"
  by (simp add: nonNegative_def list_all_iff)

lemma togglePoints_nonNegative:
  assumes "togglePoints chore was completed kidId ks = Inr ks'"
    and "nonNegative ks"
    and "\<And>ch. chore = Some ch \<Longrightarrow> 0 \<le> chore_points ch"
  shows "nonNegative ks'"
  using assms(1,2)
proof (induction ks arbitrary: ks')
  case Nil then show ?case by (simp add: nonNegative_def)
next
  case (Cons k ks)
  from Cons.prems(2) have k: "0 \<le> kid_points k" and ks: "nonNegative ks"
    by (simp_all add: nonNegative_def)
  from Cons.prems(1) obtain r where r: "togglePoints chore was completed kidId ks = Inr r"
    by (cases "togglePoints chore was completed kidId ks") (auto split: if_splits option.splits)
  from Cons.IH[OF r ks] have nr: "nonNegative r" .
  from Cons.prems(1) r k nr assms(3) show ?case
    by (auto simp: nonNegative_def split: if_splits option.splits)
qed

lemma addPoints_nonNegative: "nonNegative ks \<Longrightarrow> 0 \<le> p \<Longrightarrow> nonNegative (addPoints kidId p ks)"
  by (induction ks) (auto simp: nonNegative_def addPoints_def)

lemma subPoints_nonNegative: "nonNegative ks \<Longrightarrow> nonNegative (subPoints kidId p ks)"
  by (induction ks) (auto simp: nonNegative_def subPoints_def)

lemma streakBonusStep_nonNegative:
  assumes "streakBonusStep z newId s cs ks kidId d = Some (ks', bs')" and "nonNegative ks"
  shows "nonNegative ks'"
  using assms
  by (cases rule: streakBonusStep_cases[of z newId s cs ks kidId d])
     (auto simp: addPoints_nonNegative subPoints_nonNegative)

lemma toggleComplete_nonNegative:
  assumes "toggleComplete env s kidId choreId d = Some (Inr s')"
    and "nonNegative (kids s)"
    and "\<forall>ch\<in>set (chores s). 0 \<le> chore_points ch"
  shows "nonNegative (kids s')"
proof -
  let ?tp = "togglePoints (find (\<lambda>c. chore_id c = choreId) (chores s))
                 (wasChecked s kidId choreId d) (toggleCompleted s kidId choreId d) kidId (kids s)"
  from assms(1) obtain kids1 where k1: "?tp = Inr kids1"
    by (cases ?tp) (auto simp: toggleComplete_def Let_def)
  have "0 \<le> chore_points ch" if "find (\<lambda>c. chore_id c = choreId) (chores s) = Some ch" for ch
    using that assms(3) by (auto simp: find_Some_iff)
  from togglePoints_nonNegative[OF k1 assms(2) this] have n1: "nonNegative kids1" .
  obtain kids' bonuses' where
    sb: "streakBonusStep (zone env) (bonusId env s kidId choreId d) s (toggleCompletions env s kidId choreId d)
           kids1 kidId d = Some (kids', bonuses')"
    by (cases rule: streakBonusStep_cases[of "zone env" "bonusId env s kidId choreId d" s
          "toggleCompletions env s kidId choreId d" kids1 kidId d]) auto
  from toggleComplete_Inr[OF k1 sb] assms(1) have "kids s' = kids'" by auto
  with streakBonusStep_nonNegative[OF sb n1] show ?thesis by simp
qed

text \<open>
  C3 as stated fails. From a state whose kids all have non-negative points, REPLACE_ALL
  with a blob whose kid has -1 points yields that kid with -1 points; and toggling on a
  chore whose point value is -3 takes a kid from 0 to -3 (the addition is not clamped).
\<close>

theorem points_can_go_negative:
  "nonNegative (kids scenarioState)
   \<and> (case reducer (envDay 1) scenarioState
             (REPLACE_ALL (backupOf (scenarioState\<lparr>kids := [kidK\<lparr>kid_points := - 1\<rparr>]\<rparr>))) of
        Some (Inr s') \<Rightarrow> map kid_points (kids s') = [- 1]
      | _ \<Rightarrow> False)
   \<and> nonNegative (kids (scenarioState\<lparr>chores := [choreC\<lparr>chore_points := - 3\<rparr>]\<rparr>))
   \<and> (case reducer (envDay 1) (scenarioState\<lparr>chores := [choreC\<lparr>chore_points := - 3\<rparr>]\<rparr>)
             (TOGGLE_COMPLETE ''K'' ''C'' 1) of
        Some (Inr s') \<Rightarrow> map kid_points (kids s') = [- 3]
      | _ \<Rightarrow> False)"
  by code_simp

text \<open>
  C3 (amended). For every state in which the points of every kid and the point value of
  every chore are non-negative, and every action other than a REPLACE_ALL whose blob has a
  kid with negative points, the state the reducer returns has non-negative points for
  every kid: un-toggling, negative adjustments and bonus revocation clamp at zero.
\<close>

theorem points_stay_nonNegative:
  assumes "nonNegative (kids s)"
    and "list_all (\<lambda>ch. 0 \<le> chore_points ch) (chores s)"
    and "\<And>b. a = REPLACE_ALL b \<Longrightarrow> nonNegative (bk_kids b)"
    and "reducer env s a = Some (Inr s')"
  shows "nonNegative (kids s')"
proof (cases a)
  case (TOGGLE_COMPLETE kidId choreId d)
  with assms(4) have "toggleComplete env s kidId choreId d = Some (Inr s')"
    by (simp add: reducer_def)
  from toggleComplete_nonNegative[OF this assms(1)] assms(2) show ?thesis
    by (simp add: list_all_iff)
next
  case (REPLACE_ALL b)
  with assms(3,4) show ?thesis by (auto simp: reducer_def)
next
  case (ADD_KID n c e)
  with assms(1,4) show ?thesis by (auto simp: reducer_def Let_def nonNegative_def)
next
  case (ADJUST_POINTS_WITH_REASON kidId delta reason)
  with assms(1,4) show ?thesis by (auto simp: reducer_def Let_def nonNegative_def list_all_iff)
next
  case RESET_ALL
  with assms(4) show ?thesis by (auto simp: reducer_def defaultState_def nonNegative_def)
qed (use assms(1,4) in \<open>auto simp: reducer_def Let_def\<close>)


theorem points_stay_nonNegative_witness:
  "nonNegative (kids scenarioState)
   \<and> list_all (\<lambda>ch. 0 \<le> chore_points ch) (chores scenarioState)
   \<and> nonNegative (bk_kids (backupOf scenarioState))
   \<and> reducer (envDay 1) scenarioState (REPLACE_ALL (backupOf scenarioState)) = Some (Inr scenarioState)
   \<and> reducer (envDay 1) scenarioState (ADJUST_POINTS_WITH_REASON ''K'' (- 5) ''late'') =
        Some (Inr (scenarioState\<lparr>adjustments :=
          [\<lparr>a_id = ''ci'', a_kidId = ''K'', a_delta = - 5, a_reason = ''late'',
            a_timestampISO = ''2024-01-01T00:00:00.000Z''\<rparr>]\<rparr>))
   \<and> nonNegative (kids (scenarioState\<lparr>adjustments :=
          [\<lparr>a_id = ''ci'', a_kidId = ''K'', a_delta = - 5, a_reason = ''late'',
            a_timestampISO = ''2024-01-01T00:00:00.000Z''\<rparr>]\<rparr>))"
proof -
  have n: "nonNegative (kids scenarioState)"
    by (simp add: nonNegative_def scenarioState_def kidK_def)
  have c: "list_all (\<lambda>ch. 0 \<le> chore_points ch) (chores scenarioState)"
    by (simp add: scenarioState_def choreC_def)
  have b: "nonNegative (bk_kids (backupOf scenarioState))"
    by (simp add: backupOf_def n)
  have r: "reducer (envDay 1) scenarioState (REPLACE_ALL (backupOf scenarioState)) = Some (Inr scenarioState)"
    by (simp add: reducer_def backupOf_def scenarioState_def defaultState_def)
  have t: "trim ''late'' = ''late''"
    by (simp add: trim_def isSpace_def)
  have a: "reducer (envDay 1) scenarioState (ADJUST_POINTS_WITH_REASON ''K'' (- 5) ''late'') =
        Some (Inr (scenarioState\<lparr>adjustments :=
          [\<lparr>a_id = ''ci'', a_kidId = ''K'', a_delta = - 5, a_reason = ''late'',
            a_timestampISO = ''2024-01-01T00:00:00.000Z''\<rparr>]\<rparr>))"
    by (simp add: reducer_def Let_def t envDay_def scenarioState_def defaultState_def kidK_def)
  have "nonNegative (kids scenarioState)"
    by (rule points_stay_nonNegative[OF n c _ r]) (simp add: b)
  moreover have "nonNegative (kids (scenarioState\<lparr>adjustments :=
          [\<lparr>a_id = ''ci'', a_kidId = ''K'', a_delta = - 5, a_reason = ''late'',
            a_timestampISO = ''2024-01-01T00:00:00.000Z''\<rparr>]\<rparr>))"
    by (rule points_stay_nonNegative[OF n c _ a]) simp
  ultimately show ?thesis using c b r a by (intro conjI)
qed

section \<open>At most one record per key\<close>















section \<open>Toggling twice\<close>
























end
